theory Spec2Isabelle
  imports Main
begin

section \<open>Python strings\<close>

text \<open>
  A Python \<open>str\<close> is modelled as a \<open>string\<close>; the 256 values of \<open>char\<close> are read as the
  code points U+0000 to U+00FF. The functions of this section are the string methods and
  the two \<open>textwrap\<close> functions that \<open>builder.py\<close> calls, restricted to those code points.
\<close>

definition NL :: char where
  "NL = CHR 0x0A"

definition whitespace_chars :: "char list" where
  "whitespace_chars =
     [CHR 0x09, CHR 0x0A, CHR 0x0B, CHR 0x0C, CHR 0x0D, CHR 0x1C, CHR 0x1D, CHR 0x1E,
      CHR 0x1F, CHR 0x20, CHR 0x85, CHR 0xA0]"

definition py_isspace :: "char \<Rightarrow> bool" where
  \<comment> \<open>the characters that \<open>str.strip()\<close>, \<open>str.rstrip()\<close> and \<open>str.split()\<close> treat as whitespace\<close>
  "py_isspace c = (c \<in> set whitespace_chars)"

definition py_lstrip :: "string \<Rightarrow> string" where
  "py_lstrip s = dropWhile py_isspace s"

definition py_rstrip :: "string \<Rightarrow> string" where
  "py_rstrip s = rev (dropWhile py_isspace (rev s))"

definition py_strip :: "string \<Rightarrow> string" where
  "py_strip s = py_lstrip (py_rstrip s)"

fun split_ws :: "string \<Rightarrow> string \<Rightarrow> string list" where
  \<comment> \<open>\<open>cur\<close> is the token read so far\<close>
  "split_ws cur [] = (if cur = [] then [] else [cur])"
| "split_ws cur (c # cs) =
     (if py_isspace c then (if cur = [] then split_ws [] cs else cur # split_ws [] cs)
      else split_ws (cur @ [c]) cs)"

definition py_split :: "string \<Rightarrow> string list" where
  \<comment> \<open>\<open>s.split()\<close>: the maximal runs of non-whitespace characters\<close>
  "py_split s = split_ws [] s"

fun split_on :: "char \<Rightarrow> string \<Rightarrow> string \<Rightarrow> string list" where
  "split_on sep cur [] = [cur]"
| "split_on sep cur (c # cs) =
     (if c = sep then cur # split_on sep [] cs else split_on sep (cur @ [c]) cs)"

definition py_split_nl :: "string \<Rightarrow> string list" where
  \<comment> \<open>\<open>s.split("\n")\<close>; these are also the lines between which the multiline
      anchors \<open>^\<close> and \<open>$\<close> of \<open>re\<close> match\<close>
  "py_split_nl s = split_on NL [] s"

fun py_join :: "string \<Rightarrow> string list \<Rightarrow> string" where
  \<comment> \<open>\<open>sep.join(xs)\<close>\<close>
  "py_join sep [] = []"
| "py_join sep [x] = x"
| "py_join sep (x # y # ys) = x @ sep @ py_join sep (y # ys)"

fun startswith :: "string \<Rightarrow> string \<Rightarrow> bool" where
  \<comment> \<open>\<open>s.startswith(p)\<close>\<close>
  "startswith s [] = True"
| "startswith [] (p # ps) = False"
| "startswith (c # cs) (p # ps) = (c = p \<and> startswith cs ps)"

fun py_in :: "string \<Rightarrow> string \<Rightarrow> bool" where
  \<comment> \<open>\<open>sub in s\<close>: substring containment\<close>
  "py_in sub [] = (sub = [])"
| "py_in sub (c # cs) = (startswith (c # cs) sub \<or> py_in sub cs)"

definition py_replace :: "char \<Rightarrow> char \<Rightarrow> string \<Rightarrow> string" where
  \<comment> \<open>\<open>s.replace(a, b)\<close> for one-character \<open>a\<close> and \<open>b\<close>\<close>
  "py_replace a b s = map (\<lambda>c. if c = a then b else c) s"

definition is_upper_char :: "char \<Rightarrow> bool" where
  \<comment> \<open>uppercase letters: A-Z, U+00C0-U+00D6, U+00D8-U+00DE\<close>
  "is_upper_char c =
     (let n = (of_char c :: nat)
      in (65 \<le> n \<and> n \<le> 90) \<or> (192 \<le> n \<and> n \<le> 214) \<or> (216 \<le> n \<and> n \<le> 222))"

definition is_lower_char :: "char \<Rightarrow> bool" where
  \<comment> \<open>lowercase letters: a-z, U+00AA, U+00B5, U+00BA, U+00DF-U+00F6, U+00F8-U+00FF\<close>
  "is_lower_char c =
     (let n = (of_char c :: nat)
      in (97 \<le> n \<and> n \<le> 122) \<or> n = 170 \<or> n = 181 \<or> n = 186
         \<or> (223 \<le> n \<and> n \<le> 246) \<or> (248 \<le> n \<and> n \<le> 255))"

definition py_isupper :: "string \<Rightarrow> bool" where
  \<comment> \<open>\<open>s.isupper()\<close>: no lowercase letter and at least one uppercase letter\<close>
  "py_isupper s = ((\<forall>c \<in> set s. \<not> is_lower_char c) \<and> (\<exists>c \<in> set s. is_upper_char c))"

subsection \<open>\<open>str.splitlines(True)\<close> and \<open>textwrap.indent\<close>\<close>

definition linebreak_chars :: "char list" where
  "linebreak_chars =
     [CHR 0x0A, CHR 0x0B, CHR 0x0C, CHR 0x0D, CHR 0x1C, CHR 0x1D, CHR 0x1E, CHR 0x85]"

fun splitlines_keep :: "string \<Rightarrow> string \<Rightarrow> string list" where
  \<comment> \<open>\<open>cur\<close> is the line read so far; a carriage return followed by a line feed is one
      line boundary; every line keeps its line boundary\<close>
  "splitlines_keep cur [] = (if cur = [] then [] else [cur])"
| "splitlines_keep cur (c # cs) =
     (if c = CHR 0x0D then
        (case cs of
           [] \<Rightarrow> [cur @ [c]]
         | d # ds \<Rightarrow>
             if d = CHR 0x0A then (cur @ [c, d]) # splitlines_keep [] ds
             else (cur @ [c]) # splitlines_keep [] cs)
      else if c \<in> set linebreak_chars then (cur @ [c]) # splitlines_keep [] cs
      else splitlines_keep (cur @ [c]) cs)"

definition py_splitlines_keepends :: "string \<Rightarrow> string list" where
  "py_splitlines_keepends s = splitlines_keep [] s"

definition textwrap_indent :: "string \<Rightarrow> string \<Rightarrow> string" where
  \<comment> \<open>\<open>textwrap.indent(text, prefix)\<close> with the default predicate: the prefix goes before
      every line that is not made of whitespace only\<close>
  "textwrap_indent text prefix =
     concat (map (\<lambda>line. if py_strip line \<noteq> [] then prefix @ line else line)
                 (py_splitlines_keepends text))"

subsection \<open>\<open>textwrap.dedent\<close>\<close>

definition is_blank :: "char \<Rightarrow> bool" where
  \<comment> \<open>the character class \<open>[ \t]\<close>\<close>
  "is_blank c = (c = CHR '' '' \<or> c = CHR 0x09)"

definition whitespace_only_sub :: "string list \<Rightarrow> string list" where
  \<comment> \<open>\<open>_whitespace_only_re.sub('', text)\<close>, line by line: a line matching \<open>^[ \t]+$\<close>
      becomes empty\<close>
  "whitespace_only_sub ls = map (\<lambda>l. if l \<noteq> [] \<and> (\<forall>c \<in> set l. is_blank c) then [] else l) ls"

definition leading_whitespace :: "string list \<Rightarrow> string list" where
  \<comment> \<open>\<open>_leading_whitespace_re.findall(text)\<close>: the leading blanks of every line that has
      a character other than a blank\<close>
  "leading_whitespace ls =
     map (takeWhile is_blank) (filter (\<lambda>l. \<exists>c \<in> set l. \<not> is_blank c) ls)"

fun common_prefix :: "string \<Rightarrow> string \<Rightarrow> string" where
  \<comment> \<open>the margin cut at the first position where it differs from the indent\<close>
  "common_prefix (x # xs) (y # ys) = (if x = y then x # common_prefix xs ys else [])"
| "common_prefix xs ys = []"

definition margin_step :: "string option \<Rightarrow> string \<Rightarrow> string option" where
  \<comment> \<open>one round of the loop \<open>for indent in indents\<close>\<close>
  "margin_step margin indent =
     (case margin of
        None \<Rightarrow> Some indent
      | Some m \<Rightarrow>
          if startswith indent m then Some m
          else if startswith m indent then Some indent
          else Some (common_prefix m indent))"

definition textwrap_dedent :: "string \<Rightarrow> string" where
  "textwrap_dedent text =
     (let ls = whitespace_only_sub (py_split_nl text);
          margin = foldl margin_step None (leading_whitespace ls)
      in case margin of
           None \<Rightarrow> py_join [NL] ls
         | Some m \<Rightarrow>
             if m = [] then py_join [NL] ls
             else py_join [NL] (map (\<lambda>l. if startswith l m then drop (length m) l else l) ls))"

section \<open>Python values passed as fragments\<close>

text \<open>
  The fragments of a clause call are arbitrary Python objects. The model covers text,
  \<open>None\<close> and booleans, and tuples and lists whose items are such values. For these,
  \<open>str()\<close> and \<open>repr()\<close> always return. Integers are left out: what \<open>str()\<close> and \<open>repr()\<close>
  do with an integer depends on the interpreter's limit on integer string conversion,
  beyond which they raise a \<open>ValueError\<close> of their own.
\<close>

datatype pyatom = PyStr string | PyNone | PyBool bool

datatype pyarg = Plain pyatom | PyTuple "pyatom list" | PyList "pyatom list"

fun py_str :: "pyatom \<Rightarrow> string" where
  \<comment> \<open>the builtin \<open>str(x)\<close>\<close>
  "py_str (PyStr s) = s"
| "py_str PyNone = ''None''"
| "py_str (PyBool b) = (if b then ''True'' else ''False'')"

section \<open>The module \<open>quickql.builder\<close>\<close>

subsection \<open>Enumerations and errors\<close>

datatype sqlkeyword = WITH | SELECT | FROM | WHERE | GROUP_BY | HAVING | ORDER_BY | LIMIT

fun keyword_value :: "sqlkeyword \<Rightarrow> string" where
  "keyword_value WITH = ''WITH''"
| "keyword_value SELECT = ''SELECT''"
| "keyword_value FROM = ''FROM''"
| "keyword_value WHERE = ''WHERE''"
| "keyword_value GROUP_BY = ''GROUP BY''"
| "keyword_value HAVING = ''HAVING''"
| "keyword_value ORDER_BY = ''ORDER BY''"
| "keyword_value LIMIT = ''LIMIT''"

definition all_keywords :: "sqlkeyword list" where
  \<comment> \<open>the members of \<open>SQLKeyword\<close> in definition order, as \<open>for keyword in SQLKeyword\<close>
      visits them\<close>
  "all_keywords = [WITH, SELECT, FROM, WHERE, GROUP_BY, HAVING, ORDER_BY, LIMIT]"

definition SQLKeyword :: "string \<Rightarrow> sqlkeyword option" where
  \<comment> \<open>the lookup by value \<open>SQLKeyword(s)\<close>; \<open>None\<close> stands for its \<open>ValueError\<close>\<close>
  "SQLKeyword s = find (\<lambda>k. keyword_value k = s) all_keywords"

datatype sqlflag = DISTINCT | ALL_flag

fun flag_value :: "sqlflag \<Rightarrow> string" where
  "flag_value DISTINCT = ''DISTINCT''"
| "flag_value ALL_flag = ''ALL''"

definition SQLFlag :: "string \<Rightarrow> sqlflag option" where
  \<comment> \<open>the lookup by value \<open>SQLFlag(s)\<close>; \<open>None\<close> stands for its \<open>ValueError\<close>\<close>
  "SQLFlag s = find (\<lambda>f. flag_value f = s) [DISTINCT, ALL_flag]"

text \<open>
  The first three errors are the \<open>ValueError\<close>s that the module raises itself, told apart
  by their message and carrying the values the message shows:
  \<open>Invalid argument format: ...\<close>, \<open>Unsupported SQL clause: ...\<close> and
  \<open>Flag already set to '...', cannot set '...'\<close>. \<open>IndexError\<close> is raised by the
  subscript \<open>parts[0]\<close> in \<open>_parse_flag\<close>, \<open>AttributeError\<close> by \<open>__getattr__\<close>.
\<close>

datatype error =
    InvalidArgument pyarg
  | UnsupportedClause string
  | FlagConflict string string
  | IndexError
  | AttributeError string

subsection \<open>Module functions\<close>

definition normalize_sql :: "pyatom \<Rightarrow> string" where
  \<comment> \<open>\<open>_normalize_sql\<close>\<close>
  "normalize_sql text = py_strip (textwrap_dedent (py_rstrip (py_str text)))"

definition indent_text :: "string \<Rightarrow> nat \<Rightarrow> string" where
  \<comment> \<open>\<open>_indent_text\<close>; every call in the module leaves \<open>spaces\<close> at its default 4\<close>
  "indent_text text spaces = textwrap_indent text (replicate spaces (CHR '' ''))"

subsection \<open>\<open>QueryElement\<close>\<close>

record query_element =
  value_str :: string
  alias_str :: string
  join_keyword :: string
  is_subquery :: bool

definition create :: "pyarg \<Rightarrow> string \<Rightarrow> bool \<Rightarrow> error + query_element" where
  \<comment> \<open>\<open>QueryElement.create(arg, join_keyword=jk, is_subquery=sub)\<close>\<close>
  "create arg jk sub =
     (case arg of
        Plain (PyStr s) \<Rightarrow>
          Inr \<lparr>value_str = normalize_sql (PyStr s), alias_str = [], join_keyword = jk,
               is_subquery = sub\<rparr>
      | Plain _ \<Rightarrow> Inl (InvalidArgument arg)
      | PyTuple items \<Rightarrow>
          (case items of
             [a, v] \<Rightarrow>
               Inr \<lparr>value_str = normalize_sql v, alias_str = normalize_sql a, join_keyword = jk,
                    is_subquery = sub\<rparr>
           | _ \<Rightarrow> Inl (InvalidArgument arg))
      | PyList items \<Rightarrow>
          (case items of
             [a, v] \<Rightarrow>
               Inr \<lparr>value_str = normalize_sql v, alias_str = normalize_sql a, join_keyword = jk,
                    is_subquery = sub\<rparr>
           | _ \<Rightarrow> Inl (InvalidArgument arg)))"

subsection \<open>\<open>ClauseCollection\<close>\<close>

record clause_collection =
  elements :: "query_element list"
  flag :: "string option"

definition ClauseCollection :: clause_collection where
  \<comment> \<open>\<open>__init__\<close>\<close>
  "ClauseCollection = \<lparr>elements = [], flag = None\<rparr>"

definition add_element :: "clause_collection \<Rightarrow> query_element \<Rightarrow> clause_collection" where
  "add_element c e = c\<lparr>elements := elements c @ [e]\<rparr>"

definition set_flag :: "clause_collection \<Rightarrow> string \<Rightarrow> error + clause_collection" where
  \<comment> \<open>\<open>if self.flag\<close> holds for a flag that is neither \<open>None\<close> nor the empty string\<close>
  "set_flag c f =
     (case flag c of
        None \<Rightarrow> Inr (c\<lparr>flag := Some f\<rparr>)
      | Some g \<Rightarrow> if g \<noteq> [] then Inl (FlagConflict g f) else Inr (c\<lparr>flag := Some f\<rparr>))"

definition is_empty :: "clause_collection \<Rightarrow> bool" where
  "is_empty c = (length (elements c) = 0)"

subsection \<open>\<open>Query\<close>\<close>

text \<open>
  A \<open>Query\<close> owns exactly one \<open>ClauseCollection\<close> per keyword, built in \<open>__init__\<close> and
  never replaced, so the dictionary \<open>_clauses\<close> is a total function on the keywords. A
  method that mutates the query takes the query and returns the mutated one; \<open>add\<close>
  returns it together with the error it raised, if any, since the mutations made before
  a \<open>raise\<close> stay in the object.
\<close>

record query =
  clauses :: "sqlkeyword \<Rightarrow> clause_collection"

definition Query :: query where
  \<comment> \<open>\<open>__init__\<close>\<close>
  "Query = \<lparr>clauses = (\<lambda>keyword. ClauseCollection)\<rparr>"

definition CLAUSE_SEPARATORS :: "sqlkeyword \<Rightarrow> string option" where
  "CLAUSE_SEPARATORS = [WHERE \<mapsto> '' AND '', HAVING \<mapsto> '' AND '']"

definition DEFAULT_SEPARATOR :: string where
  "DEFAULT_SEPARATOR = '', ''"

definition FLAGGABLE_KEYWORDS :: "sqlkeyword \<Rightarrow> sqlflag list option" where
  "FLAGGABLE_KEYWORDS = [SELECT \<mapsto> [DISTINCT, ALL_flag]]"

definition SUBQUERY_KEYWORDS :: "sqlkeyword list" where
  "SUBQUERY_KEYWORDS = [WITH]"

definition JOIN_ALIASES :: "(string \<times> string) list" where
  \<comment> \<open>a dictionary, visited in insertion order\<close>
  "JOIN_ALIASES =
     [(''JOIN'', ''FROM''), (''INNER JOIN'', ''FROM''), (''LEFT JOIN'', ''FROM''),
      (''RIGHT JOIN'', ''FROM''), (''FULL JOIN'', ''FROM''), (''CROSS JOIN'', ''FROM'')]"

definition resolve_join_alias :: "string \<Rightarrow> string \<times> string" where
  \<comment> \<open>\<open>_resolve_join_alias\<close>\<close>
  "resolve_join_alias clause_name =
     (case find (\<lambda>(join_type, actual_clause). py_in join_type clause_name) JOIN_ALIASES of
        Some (join_type, actual_clause) \<Rightarrow> (actual_clause, clause_name)
      | None \<Rightarrow> (clause_name, []))"

definition parse_flag :: "string \<Rightarrow> error + string \<times> string" where
  \<comment> \<open>\<open>_parse_flag\<close>; with no token at all the subscript \<open>parts[0]\<close> raises\<close>
  "parse_flag clause_name =
     (let parts = py_split clause_name
      in if length parts = 1 then Inr (clause_name, [])
         else
           (case parts of
              base_clause # potential_flag # _ \<Rightarrow>
                (case SQLKeyword base_clause of
                   None \<Rightarrow> Inr (clause_name, [])
                 | Some keyword \<Rightarrow>
                     (case FLAGGABLE_KEYWORDS keyword of
                        None \<Rightarrow> Inr (clause_name, [])
                      | Some flags \<Rightarrow>
                          (case SQLFlag potential_flag of
                             None \<Rightarrow> Inr (clause_name, [])
                           | Some flag' \<Rightarrow>
                               if flag' \<in> set flags then Inr (base_clause, potential_flag)
                               else Inr (clause_name, []))))
            | _ \<Rightarrow> Inl IndexError))"

fun add_elements :: "sqlkeyword \<Rightarrow> string \<Rightarrow> pyarg list \<Rightarrow> query \<Rightarrow> error option \<times> query" where
  \<comment> \<open>the loop \<open>for arg in args\<close> of \<open>add\<close>: an element is appended to the collection
      before the next fragment is looked at\<close>
  "add_elements keyword jk [] q = (None, q)"
| "add_elements keyword jk (arg # args) q =
     (case create arg jk (keyword \<in> set SUBQUERY_KEYWORDS) of
        Inl e \<Rightarrow> (Some e, q)
      | Inr element \<Rightarrow>
          add_elements keyword jk args
            (q\<lparr>clauses := (clauses q)(keyword := add_element (clauses q keyword) element)\<rparr>))"

definition add :: "query \<Rightarrow> string \<Rightarrow> pyarg list \<Rightarrow> error option \<times> query" where
  \<comment> \<open>\<open>Query.add(clause_name, *args)\<close>: the error raised, if any, and the query afterwards\<close>
  "add q clause_name args =
     (let (actual_clause, jk) = resolve_join_alias clause_name
      in case parse_flag actual_clause of
           Inl e \<Rightarrow> (Some e, q)
         | Inr (actual_clause, flag') \<Rightarrow>
             (case SQLKeyword actual_clause of
                None \<Rightarrow> (Some (UnsupportedClause actual_clause), q)
              | Some keyword \<Rightarrow>
                  if flag' \<noteq> [] then
                    (case set_flag (clauses q keyword) flag' of
                       Inl e \<Rightarrow> (Some e, q)
                     | Inr c \<Rightarrow>
                         add_elements keyword jk args
                           (q\<lparr>clauses := (clauses q)(keyword := c)\<rparr>))
                  else add_elements keyword jk args q))"

definition getattr_call :: "query \<Rightarrow> string \<Rightarrow> pyarg list \<Rightarrow> error option \<times> query" where
  \<comment> \<open>\<open>q.NAME(*args)\<close> for a name that is no member of the class: \<open>__getattr__\<close> and the
      call of the function it returns\<close>
  "getattr_call q name args =
     (if py_isupper name then add q (py_replace (CHR ''_'') (CHR '' '') name) args
      else (Some (AttributeError name), q))"

fun append_group ::
  "string \<Rightarrow> query_element \<Rightarrow> (string \<times> query_element list) list
     \<Rightarrow> (string \<times> query_element list) list" where
  \<comment> \<open>\<open>groups[join_key].append(element)\<close>, the key being added at the end when new\<close>
  "append_group join_key element [] = [(join_key, [element])]"
| "append_group join_key element ((k, es) # groups) =
     (if k = join_key then (k, es @ [element]) # groups
      else (k, es) # append_group join_key element groups)"

definition group_elements_by_join ::
  "query_element list \<Rightarrow> (string \<times> query_element list) list" where
  \<comment> \<open>\<open>_group_elements_by_join\<close>; the dictionary is kept in insertion order\<close>
  "group_elements_by_join es =
     foldl (\<lambda>groups element. append_group (join_keyword element) element groups) [([], [])] es"

definition format_element :: "sqlkeyword \<Rightarrow> query_element \<Rightarrow> string" where
  \<comment> \<open>\<open>_format_element\<close>\<close>
  "format_element keyword element =
     (let v = (if is_subquery element
               then ''('' @ [NL] @ indent_text (value_str element) 4 @ [NL] @ '')''
               else value_str element)
      in if alias_str element \<noteq> [] then
           (if keyword = WITH then alias_str element @ '' AS '' @ v
            else v @ '' AS '' @ alias_str element)
         else v)"

fun group_parts :: "sqlkeyword \<Rightarrow> string \<times> query_element list \<Rightarrow> string list" where
  \<comment> \<open>the body of the loop over \<open>join_groups.items()\<close>: what it appends to \<open>sql_parts\<close>\<close>
  "group_parts keyword (jk, es) =
     (if jk \<noteq> [] then [jk] else []) @
     [indent_text
        (py_join (case CLAUSE_SEPARATORS keyword of Some sep \<Rightarrow> sep | None \<Rightarrow> DEFAULT_SEPARATOR)
           (map (format_element keyword) es)) 4]"

definition clause_parts :: "sqlkeyword \<Rightarrow> clause_collection \<Rightarrow> string list" where
  \<comment> \<open>the body of the loop over the keywords: what it appends to \<open>sql_parts\<close>\<close>
  "clause_parts keyword clause =
     (if is_empty clause then []
      else
        (case flag clause of
           None \<Rightarrow> keyword_value keyword
         | Some f \<Rightarrow> if f \<noteq> [] then keyword_value keyword @ '' '' @ f else keyword_value keyword)
        # concat (map (group_parts keyword) (group_elements_by_join (elements clause))))"

definition sql_parts :: "query \<Rightarrow> string list" where
  "sql_parts q = concat (map (\<lambda>keyword. clause_parts keyword (clauses q keyword)) all_keywords)"

definition build :: "query \<Rightarrow> string" where
  "build q = py_join [NL] (sql_parts q)"

section \<open>Notions used to state the properties\<close>

fun is_text_or_pair :: "pyarg \<Rightarrow> bool" where
  \<comment> \<open>a fragment that is text, or a tuple or list of exactly two items\<close>
  "is_text_or_pair (Plain (PyStr s)) = True"
| "is_text_or_pair (Plain _) = False"
| "is_text_or_pair (PyTuple items) = (length items = 2)"
| "is_text_or_pair (PyList items) = (length items = 2)"

definition resolve_clause :: "string \<Rightarrow> error + sqlkeyword \<times> string \<times> string" where
  \<comment> \<open>the first three steps of \<open>add\<close>, which read the clause name only: the keyword, the
      flag and the join keyword they arrive at, or the error they raise\<close>
  "resolve_clause clause_name =
     (let (actual_clause, jk) = resolve_join_alias clause_name
      in case parse_flag actual_clause of
           Inl e \<Rightarrow> Inl e
         | Inr (actual_clause, flag') \<Rightarrow>
             (case SQLKeyword actual_clause of
                None \<Rightarrow> Inl (UnsupportedClause actual_clause)
              | Some keyword \<Rightarrow> Inr (keyword, flag', jk)))"

definition after_calls :: "(string \<times> pyarg list) list \<Rightarrow> query" where
  \<comment> \<open>the query that a sequence of \<open>add\<close> calls on a new \<open>Query()\<close> leaves behind, the
      caller catching the errors\<close>
  "after_calls calls = foldl (\<lambda>q (clause_name, args). snd (add q clause_name args)) Query calls"

definition first_seen :: "'a list \<Rightarrow> 'a list" where
  \<comment> \<open>every value once, in the order of first occurrence (\<open>remdups\<close> keeps the last
      occurrences)\<close>
  "first_seen xs = rev (remdups (rev xs))"

definition flag_tokens :: "string list \<Rightarrow> string option" where
  \<comment> \<open>the flag that the tokens of a clause name carry: the second token, when the first
      is \<open>SELECT\<close> and the second is \<open>DISTINCT\<close> or \<open>ALL\<close>, whatever tokens follow\<close>
  "flag_tokens parts =
     (case parts of
        b # g # _ \<Rightarrow>
          if b = ''SELECT'' \<and> (g = ''DISTINCT'' \<or> g = ''ALL'') then Some g else None
      | _ \<Rightarrow> None)"

section \<open>Auxiliary facts\<close>

subsection \<open>Element construction and the loop over the fragments\<close>

lemma query_eqI: "(\<And>k. clauses q k = clauses q' k) \<Longrightarrow> q = (q' :: query)"
  by (cases q, cases q') (simp add: fun_eq_iff)

lemma create_ok: "is_text_or_pair a \<Longrightarrow> \<exists>e. create a jk sub = Inr e"
  by (cases a rule: is_text_or_pair.cases)
     (auto simp: create_def length_Suc_conv numeral_2_eq_2 split: list.splits)

lemma create_fails: "\<not> is_text_or_pair a \<Longrightarrow> create a jk sub = Inl (InvalidArgument a)"
  by (cases a rule: is_text_or_pair.cases)
     (auto simp: create_def numeral_2_eq_2 split: list.splits)

lemma add_elements_explicit:
  "add_elements k jk args q =
     (case dropWhile is_text_or_pair args of [] \<Rightarrow> None | a # _ \<Rightarrow> Some (InvalidArgument a),
      q\<lparr>clauses := (clauses q)(k := (clauses q k)\<lparr>elements := elements (clauses q k) @
          map (\<lambda>a. projr (create a jk (k \<in> set SUBQUERY_KEYWORDS)))
              (takeWhile is_text_or_pair args)\<rparr>)\<rparr>)"
proof (induction args arbitrary: q)
  case Nil
  show ?case by simp
next
  case (Cons a args)
  show ?case
  proof (cases "is_text_or_pair a")
    case True
    then obtain e where e: "create a jk (k \<in> set SUBQUERY_KEYWORDS) = Inr e"
      using create_ok by blast
    show ?thesis using True e
      by (intro prod_eqI query_eqI) (simp_all add: Cons.IH add_element_def)
  next
    case False
    then show ?thesis by (simp add: create_fails)
  qed
qed

lemma add_elements_error:
  "fst (add_elements k jk args q) = Some e \<Longrightarrow> \<exists>a. e = InvalidArgument a"
  by (auto simp: add_elements_explicit split: list.splits)

lemma add_elements_flag:
  "flag (clauses (snd (add_elements k jk args q)) k') = flag (clauses q k')"
  by (simp add: add_elements_explicit)

subsection \<open>The steps of \<open>add\<close>\<close>

lemma add_by_resolve_clause:
  "add q clause_name args =
     (case resolve_clause clause_name of
        Inl e \<Rightarrow> (Some e, q)
      | Inr (k, fl, jk) \<Rightarrow>
          if fl \<noteq> [] then
            (case set_flag (clauses q k) fl of
               Inl e \<Rightarrow> (Some e, q)
             | Inr c \<Rightarrow> add_elements k jk args (q\<lparr>clauses := (clauses q)(k := c)\<rparr>))
          else add_elements k jk args q)"
  by (simp add: add_def resolve_clause_def split: prod.splits sum.splits option.splits)

lemma set_flag_fails:
  "set_flag c f = Inl e \<Longrightarrow> \<exists>g. e = FlagConflict g f \<and> flag c = Some g \<and> g \<noteq> []"
  by (auto simp: set_flag_def split: option.splits if_splits)

lemma set_flag_ok:
  "set_flag c f = Inr c' \<Longrightarrow> c' = c\<lparr>flag := Some f\<rparr>"
  by (auto simp: set_flag_def split: option.splits if_splits)

lemma resolve_clause_error:
  "resolve_clause n = Inl e \<Longrightarrow> e = IndexError \<or> (\<exists>s. e = UnsupportedClause s)"
  by (auto simp: resolve_clause_def parse_flag_def Let_def
           split: prod.splits sum.splits option.splits if_splits list.splits)



subsection \<open>Flags of the queries that \<open>add\<close> builds\<close>

lemma add_keeps_flags_set:
  assumes "\<forall>k. flag (clauses q k) \<noteq> Some []"
  shows "flag (clauses (snd (add q n args)) k) \<noteq> Some []"
proof (cases "resolve_clause n")
  case (Inl e)
  then show ?thesis using assms by (simp add: add_by_resolve_clause)
next
  case (Inr r)
  obtain k' fl jk where r: "r = (k', fl, jk)" by (cases r)
  show ?thesis
  proof (cases "set_flag (clauses q k') fl")
    case (Inl e)
    then show ?thesis using assms Inr r
      by (simp add: add_by_resolve_clause add_elements_flag)
  next
    case c: (Inr c)
    from set_flag_ok [OF c] show ?thesis using assms Inr r c
      by (simp add: add_by_resolve_clause add_elements_flag)
  qed
qed

lemma foldl_add_flags_set:
  "\<forall>k. flag (clauses q k) \<noteq> Some [] \<Longrightarrow>
   flag (clauses (foldl (\<lambda>q (n, args). snd (add q n args)) q calls) k) \<noteq> Some []"
proof (induction calls arbitrary: q k)
  case Nil
  then show ?case by simp
next
  case (Cons c calls)
  obtain n args where c: "c = (n, args)" by (cases c)
  have "\<forall>k. flag (clauses (snd (add q n args)) k) \<noteq> Some []"
    using add_keeps_flags_set [OF Cons.prems] by blast
  from Cons.IH [OF this] show ?case by (simp add: c)
qed

lemma after_calls_flags_set: "flag (clauses (after_calls calls) k) \<noteq> Some []"
  unfolding after_calls_def
  by (rule foldl_add_flags_set) (simp add: Query_def ClauseCollection_def)

lemma add_keeps_flag:
  assumes "flag (clauses q k) = Some f" and "f \<noteq> []"
  shows "flag (clauses (snd (add q n args)) k) = Some f"
proof (cases "resolve_clause n")
  case (Inl e)
  then show ?thesis using assms by (simp add: add_by_resolve_clause)
next
  case (Inr r)
  obtain k' fl jk where r: "r = (k', fl, jk)" by (cases r)
  show ?thesis
  proof (cases "set_flag (clauses q k') fl")
    case (Inl e)
    then show ?thesis using assms Inr r
      by (simp add: add_by_resolve_clause add_elements_flag)
  next
    case c: (Inr c)
    with assms have "k' \<noteq> k \<or> fl = []"
      by (auto simp: set_flag_def)
    with set_flag_ok [OF c] show ?thesis using assms Inr r c
      by (auto simp: add_by_resolve_clause add_elements_flag)
  qed
qed

lemma after_calls_snoc:
  "after_calls (calls @ [(n, args)]) = snd (add (after_calls calls) n args)"
  by (simp add: after_calls_def)

lemma after_calls_keep_flag:
  "flag (clauses (after_calls calls) k) = Some f \<Longrightarrow>
   flag (clauses (after_calls (calls @ later)) k) = Some f"
proof (induction later rule: rev_induct)
  case Nil
  then show ?case by simp
next
  case (snoc c later)
  obtain n args where c: "c = (n, args)" by (cases c)
  from snoc have f: "flag (clauses (after_calls (calls @ later)) k) = Some f" by simp
  with after_calls_flags_set [of "calls @ later" k] have "f \<noteq> []" by auto
  from add_keeps_flag [OF f this, of n args] show ?case
    using after_calls_snoc [of "calls @ later" n args] by (simp add: c)
qed

subsection \<open>Clause names and their tokens\<close>

lemma SQLKeyword_Some: "SQLKeyword s = Some k \<longleftrightarrow> keyword_value k = s"
  by (cases k) (auto simp: SQLKeyword_def all_keywords_def)

lemma SQLFlag_Some: "SQLFlag s = Some f \<longleftrightarrow> flag_value f = s"
  by (cases f) (auto simp: SQLFlag_def)

lemma FLAGGABLE_Some:
  "FLAGGABLE_KEYWORDS k = Some fs \<longleftrightarrow> k = SELECT \<and> fs = [DISTINCT, ALL_flag]"
  by (auto simp: FLAGGABLE_KEYWORDS_def)

lemma parse_flag_two_tokens:
  assumes "py_split n = b # g # rest"
  shows "parse_flag n =
           (if b = ''SELECT'' \<and> (g = ''DISTINCT'' \<or> g = ''ALL'') then Inr (''SELECT'', g)
            else Inr (n, []))"
proof (cases "\<exists>k fs f. SQLKeyword b = Some k \<and> FLAGGABLE_KEYWORDS k = Some fs \<and>
                       SQLFlag g = Some f \<and> f \<in> set fs")
  case True
  then obtain k fs f where *: "SQLKeyword b = Some k" "FLAGGABLE_KEYWORDS k = Some fs"
    "SQLFlag g = Some f" "f \<in> set fs" by blast
  then have "b = ''SELECT''" "g = ''DISTINCT'' \<or> g = ''ALL''"
    by (auto simp: SQLKeyword_Some FLAGGABLE_Some SQLFlag_Some)
  with * assms show ?thesis
    by (simp add: parse_flag_def)
next
  case False
  have "\<not> (b = ''SELECT'' \<and> (g = ''DISTINCT'' \<or> g = ''ALL''))"
  proof
    assume a: "b = ''SELECT'' \<and> (g = ''DISTINCT'' \<or> g = ''ALL'')"
    then have "SQLKeyword b = Some SELECT" by (simp add: SQLKeyword_Some)
    moreover have "FLAGGABLE_KEYWORDS SELECT = Some [DISTINCT, ALL_flag]"
      by (simp add: FLAGGABLE_Some)
    moreover from a have "SQLFlag g = Some DISTINCT \<or> SQLFlag g = Some ALL_flag"
      by (auto simp: SQLFlag_Some)
    ultimately show False using False by auto
  qed
  with False assms show ?thesis
    by (auto simp: parse_flag_def split: option.splits)
qed

lemma parse_flag_by_tokens:
  assumes "py_split n \<noteq> []"
  shows "parse_flag n =
           (case flag_tokens (py_split n) of Some g \<Rightarrow> Inr (''SELECT'', g) | None \<Rightarrow> Inr (n, []))"
proof (cases "py_split n")
  case Nil
  with assms show ?thesis by simp
next
  case (Cons b rest)
  show ?thesis
  proof (cases rest)
    case Nil
    with Cons show ?thesis by (simp add: parse_flag_def flag_tokens_def)
  next
    case (Cons g rest')
    with \<open>py_split n = b # rest\<close> have "py_split n = b # g # rest'" by simp
    from parse_flag_two_tokens [OF this] this show ?thesis
      by (auto simp: flag_tokens_def)
  qed
qed

lemma resolve_join_alias_cases:
  "resolve_join_alias n = (''FROM'', n) \<or> resolve_join_alias n = (n, [])"
proof (cases "find (\<lambda>(join_type, actual_clause). py_in join_type n) JOIN_ALIASES")
  case None
  then show ?thesis by (simp add: resolve_join_alias_def)
next
  case (Some p)
  then have "p \<in> set JOIN_ALIASES" by (metis find_Some_iff nth_mem)
  then have "snd p = ''FROM''" by (auto simp: JOIN_ALIASES_def)
  with Some show ?thesis by (cases p) (simp add: resolve_join_alias_def)
qed

lemma py_split_FROM: "py_split ''FROM'' = [''FROM'']"
  by code_simp

subsection \<open>Groups of a clause\<close>

lemma first_seen_snoc:
  "first_seen (xs @ [x]) = (if x \<in> set xs then first_seen xs else first_seen xs @ [x])"
  by (simp add: first_seen_def)

lemma set_first_seen: "set (first_seen xs) = set xs"
  by (simp add: first_seen_def)

lemma distinct_first_seen: "distinct (first_seen xs)"
  by (simp add: first_seen_def)

lemma first_seen_Cons: "first_seen (x # xs) = x # first_seen (filter (\<lambda>y. y \<noteq> x) xs)"
proof (induction xs rule: rev_induct)
  case Nil
  show ?case by (simp add: first_seen_def)
next
  case (snoc y xs)
  have "first_seen (x # xs @ [y]) = first_seen ((x # xs) @ [y])" by simp
  also have "\<dots> = (if y \<in> set (x # xs) then first_seen (x # xs) else first_seen (x # xs) @ [y])"
    by (rule first_seen_snoc)
  finally show ?case
    by (auto simp: snoc.IH first_seen_snoc)
qed

lemma append_group_map:
  "distinct ks \<Longrightarrow>
   append_group k e (map (\<lambda>k'. (k', f k')) ks) =
     (if k \<in> set ks then map (\<lambda>k'. (k', if k' = k then f k' @ [e] else f k')) ks
      else map (\<lambda>k'. (k', f k')) ks @ [(k, [e])])"
  by (induction ks) auto

lemma group_elements_by_join_explicit:
  "group_elements_by_join es =
     map (\<lambda>k. (k, filter (\<lambda>e. join_keyword e = k) es))
         ([] # first_seen (filter (\<lambda>k. k \<noteq> []) (map join_keyword es)))"
proof (induction es rule: rev_induct)
  case Nil
  show ?case by (simp add: group_elements_by_join_def first_seen_def)
next
  case (snoc e es)
  let ?ks = "[] # first_seen (filter (\<lambda>k. k \<noteq> []) (map join_keyword es))"
  have d: "distinct ?ks"
    by (simp add: distinct_first_seen set_first_seen)
  have s: "set ?ks = insert [] (join_keyword ` set es)"
    by (auto simp: set_first_seen)
  have "group_elements_by_join (es @ [e]) =
          append_group (join_keyword e) e (group_elements_by_join es)"
    by (simp add: group_elements_by_join_def)
  also have "\<dots> = append_group (join_keyword e) e
                     (map (\<lambda>k. (k, filter (\<lambda>e. join_keyword e = k) es)) ?ks)"
    by (simp only: snoc.IH)
  also have "\<dots> = map (\<lambda>k. (k, filter (\<lambda>e. join_keyword e = k) (es @ [e])))
         ([] # first_seen (filter (\<lambda>k. k \<noteq> []) (map join_keyword (es @ [e]))))"
  proof (cases "join_keyword e \<in> set ?ks")
    case True
    then have "[] # first_seen (filter (\<lambda>k. k \<noteq> []) (map join_keyword (es @ [e]))) = ?ks"
      by (auto simp: first_seen_snoc set_first_seen)
    then show ?thesis
      using True by (simp only: append_group_map [OF d] if_True) auto
  next
    case False
    then have k: "[] # first_seen (filter (\<lambda>k. k \<noteq> []) (map join_keyword (es @ [e])))
                    = ?ks @ [join_keyword e]"
      by (auto simp: first_seen_snoc set_first_seen)
    from False have n: "filter (\<lambda>x. join_keyword x = join_keyword e) es = []"
      unfolding s by (auto simp: filter_empty_conv image_iff)
    from False have m: "\<forall>k' \<in> set ?ks. k' \<noteq> join_keyword e"
      by blast
    show ?thesis
      using False n m by (simp only: append_group_map [OF d] if_False k) auto
  qed
  finally show ?case .
qed

lemma group_parts_empty_default: "group_parts kw ([], []) = [[]]"
  by (simp add: indent_text_def textwrap_indent_def py_splitlines_keepends_def)

lemma tagged_groups_nonempty:
  "\<forall>k \<in> set (first_seen (filter (\<lambda>k. k \<noteq> []) (map join_keyword es))).
      k \<noteq> [] \<and> filter (\<lambda>e. join_keyword e = k) es \<noteq> []"
  by (auto simp: set_first_seen filter_empty_conv)

lemma clause_parts_tl:
  assumes "\<not> is_empty c"
  shows "tl (clause_parts kw c) =
        group_parts kw ([], filter (\<lambda>e. join_keyword e = []) (elements c)) @
        concat (map (\<lambda>k. group_parts kw (k, filter (\<lambda>e. join_keyword e = k) (elements c)))
                    (first_seen (filter (\<lambda>k. k \<noteq> []) (map join_keyword (elements c)))))"
proof -
  have "tl (clause_parts kw c) = concat (map (group_parts kw) (group_elements_by_join (elements c)))"
    using assms by (simp add: clause_parts_def)
  also have "\<dots> = concat (map (group_parts kw)
      (map (\<lambda>k. (k, filter (\<lambda>e. join_keyword e = k) (elements c)))
         ([] # first_seen (filter (\<lambda>k. k \<noteq> []) (map join_keyword (elements c))))))"
    by (simp only: group_elements_by_join_explicit)
  also have "\<dots> = group_parts kw ([], filter (\<lambda>e. join_keyword e = []) (elements c)) @
        concat (map (\<lambda>k. group_parts kw (k, filter (\<lambda>e. join_keyword e = k) (elements c)))
                    (first_seen (filter (\<lambda>k. k \<noteq> []) (map join_keyword (elements c)))))"
    by (simp only: list.map concat.simps map_map comp_def)
  finally show ?thesis .
qed

subsection \<open>Indentation of a one-line text\<close>



section \<open>Properties\<close>

text \<open>
  C1, as amended. An \<open>add\<close> call that fails with \<open>UnsupportedClause\<close> or \<open>FlagConflict\<close> (or
  with the \<open>IndexError\<close> of a clause name without tokens) leaves the builder unchanged. A
  call that fails with \<open>InvalidArgument\<close> has resolved its clause name; the error names the
  first fragment that is neither text nor a two-item pair; every clause store but the
  target is unchanged, and in the target store the parsed flag, if any, is set and the
  elements of the fragments before the offending one are appended.
\<close>

theorem add_failure_state:
  assumes "fst (add q clause_name args) = Some e"
  shows "case e of
           InvalidArgument a \<Rightarrow>
             (\<exists>k fl jk rest.
                resolve_clause clause_name = Inr (k, fl, jk) \<and>
                dropWhile is_text_or_pair args = a # rest \<and>
                snd (add q clause_name args) =
                  q\<lparr>clauses := (clauses q)(k :=
                      \<lparr>elements = elements (clauses q k) @
                         map (\<lambda>x. projr (create x jk (k \<in> set SUBQUERY_KEYWORDS)))
                             (takeWhile is_text_or_pair args),
                       flag = (if fl \<noteq> [] then Some fl else flag (clauses q k))\<rparr>)\<rparr>)
         | _ \<Rightarrow> snd (add q clause_name args) = q"
proof (cases "resolve_clause clause_name")
  case (Inl e')
  then have "add q clause_name args = (Some e', q)"
    by (simp add: add_by_resolve_clause)
  with assms resolve_clause_error [OF Inl] show ?thesis by auto
next
  case (Inr r)
  obtain k fl jk where r: "r = (k, fl, jk)" by (cases r)
  show ?thesis
  proof (cases "fl \<noteq> [] \<and> (\<exists>e'. set_flag (clauses q k) fl = Inl e')")
    case True
    then obtain e' where e': "set_flag (clauses q k) fl = Inl e'" by blast
    with True Inr r have "add q clause_name args = (Some e', q)"
      by (simp add: add_by_resolve_clause)
    with assms set_flag_fails [OF e'] show ?thesis by auto
  next
    case False
    define c where "c = (if fl \<noteq> [] then (clauses q k)\<lparr>flag := Some fl\<rparr> else clauses q k)"
    have add: "add q clause_name args = add_elements k jk args (q\<lparr>clauses := (clauses q)(k := c)\<rparr>)"
    proof (cases "fl = []")
      case True
      then show ?thesis using Inr r by (simp add: add_by_resolve_clause c_def)
    next
      case fl: False
      with False obtain c' where c': "set_flag (clauses q k) fl = Inr c'"
        by (cases "set_flag (clauses q k) fl") auto
      from set_flag_ok [OF c'] fl show ?thesis using Inr r c'
        by (simp add: add_by_resolve_clause c_def)
    qed
    from assms obtain a rest where d: "dropWhile is_text_or_pair args = a # rest"
      and e: "e = InvalidArgument a"
      by (auto simp: add add_elements_explicit split: list.splits)
    have "snd (add q clause_name args) =
            q\<lparr>clauses := (clauses q)(k :=
                \<lparr>elements = elements (clauses q k) @
                   map (\<lambda>x. projr (create x jk (k \<in> set SUBQUERY_KEYWORDS)))
                       (takeWhile is_text_or_pair args),
                 flag = (if fl \<noteq> [] then Some fl else flag (clauses q k))\<rparr>)\<rparr>"
      by (intro query_eqI) (simp add: add add_elements_explicit c_def)
    with d e Inr r show ?thesis by simp
  qed
qed

theorem add_failure_state_witness:
  "fst (add Query ''SELECT DISTINCT'' [Plain (PyStr ''a''), Plain PyNone])
     = Some (InvalidArgument (Plain PyNone)) \<and>
   snd (add Query ''SELECT DISTINCT'' [Plain (PyStr ''a''), Plain PyNone])
     = Query\<lparr>clauses := (clauses Query)(SELECT :=
         \<lparr>elements = [\<lparr>value_str = ''a'', alias_str = [], join_keyword = [],
                        is_subquery = False\<rparr>],
          flag = Some ''DISTINCT''\<rparr>)\<rparr>"
proof -
  let ?args = "[Plain (PyStr ''a''), Plain PyNone]"
  have h: "fst (add Query ''SELECT DISTINCT'' ?args) = Some (InvalidArgument (Plain PyNone))"
    by code_simp
  have r: "resolve_clause ''SELECT DISTINCT'' = Inr (SELECT, ''DISTINCT'', [])"
    by code_simp
  have t: "takeWhile is_text_or_pair ?args = [Plain (PyStr ''a'')]"
    by simp
  have c: "projr (create (Plain (PyStr ''a'')) [] (SELECT \<in> set SUBQUERY_KEYWORDS))
             = \<lparr>value_str = ''a'', alias_str = [], join_keyword = [], is_subquery = False\<rparr>"
    by code_simp
  have e: "elements (clauses Query SELECT) = []"
    by (simp add: Query_def ClauseCollection_def)
  from add_failure_state [OF h] r t c e h show ?thesis
    by auto
qed

text \<open>
  C1 as stated fails: \<open>Query().add("SELECT DISTINCT", "a", None)\<close> raises
  \<open>InvalidArgument\<close> for \<open>None\<close>, and the \<open>SELECT\<close> store, empty and unflagged before the
  call, then holds the element \<open>a\<close> and the flag \<open>DISTINCT\<close>.
\<close>

theorem add_not_atomic:
  "fst (add Query ''SELECT DISTINCT'' [Plain (PyStr ''a''), Plain PyNone])
     = Some (InvalidArgument (Plain PyNone)) \<and>
   elements (clauses Query SELECT) = [] \<and>
   flag (clauses Query SELECT) = None \<and>
   elements (clauses (snd (add Query ''SELECT DISTINCT'' [Plain (PyStr ''a''), Plain PyNone])) SELECT)
     = [\<lparr>value_str = ''a'', alias_str = [], join_keyword = [], is_subquery = False\<rparr>] \<and>
   flag (clauses (snd (add Query ''SELECT DISTINCT'' [Plain (PyStr ''a''), Plain PyNone])) SELECT)
     = Some ''DISTINCT''"
  by code_simp

text \<open>
  C2, as amended. For a join-resolved clause name with at least one token, a flag is
  recognised exactly when the first token is \<open>SELECT\<close> and the second is \<open>DISTINCT\<close> or
  \<open>ALL\<close>, whatever tokens follow: the clause name collapses to \<open>SELECT\<close>, and \<open>add\<close> records
  the flag in a \<open>SELECT\<close> store that has none. Otherwise the clause name is left
  untouched, \<open>add\<close> changes no flag, and it fails with \<open>UnsupportedClause\<close> naming the
  clause name when that is not itself a keyword.
\<close>

theorem flag_parsing_tokens:
  assumes "py_split (fst (resolve_join_alias clause_name)) \<noteq> []"
  shows "parse_flag (fst (resolve_join_alias clause_name)) =
           (case flag_tokens (py_split (fst (resolve_join_alias clause_name))) of
              Some g \<Rightarrow> Inr (''SELECT'', g)
            | None \<Rightarrow> Inr (fst (resolve_join_alias clause_name), [])) \<and>
         (flag_tokens (py_split (fst (resolve_join_alias clause_name))) = Some g \<longrightarrow>
            resolve_clause clause_name = Inr (SELECT, g, []) \<and>
            (flag (clauses q SELECT) = None \<longrightarrow>
               flag (clauses (snd (add q clause_name args)) SELECT) = Some g)) \<and>
         (flag_tokens (py_split (fst (resolve_join_alias clause_name))) = None \<longrightarrow>
            (\<forall>k. flag (clauses (snd (add q clause_name args)) k) = flag (clauses q k)) \<and>
            (SQLKeyword (fst (resolve_join_alias clause_name)) = None \<longrightarrow>
               add q clause_name args
                 = (Some (UnsupportedClause (fst (resolve_join_alias clause_name))), q)))"
proof -
  let ?n = "fst (resolve_join_alias clause_name)"
  let ?jk = "snd (resolve_join_alias clause_name)"
  note p = parse_flag_by_tokens [OF assms]
  have kw: "SQLKeyword ''SELECT'' = Some SELECT"
    by (simp add: SQLKeyword_Some)
  have "resolve_clause clause_name =
          (case parse_flag ?n of
             Inl e \<Rightarrow> Inl e
           | Inr (actual_clause, fl) \<Rightarrow>
               (case SQLKeyword actual_clause of
                  None \<Rightarrow> Inl (UnsupportedClause actual_clause)
                | Some k \<Rightarrow> Inr (k, fl, ?jk)))"
    by (cases "resolve_join_alias clause_name")
       (auto simp: resolve_clause_def split: sum.splits option.splits)
  then have rc: "resolve_clause clause_name =
          (case flag_tokens (py_split ?n) of
             Some g \<Rightarrow> Inr (SELECT, g, ?jk)
           | None \<Rightarrow> (case SQLKeyword ?n of None \<Rightarrow> Inl (UnsupportedClause ?n)
                      | Some k \<Rightarrow> Inr (k, [], ?jk)))"
    unfolding p by (cases "flag_tokens (py_split ?n)") (simp_all add: kw)
  have jk: "?jk = []" if "flag_tokens (py_split ?n) = Some g"
  proof -
    from resolve_join_alias_cases [of clause_name] show ?thesis
    proof
      assume "resolve_join_alias clause_name = (''FROM'', clause_name)"
      with that show ?thesis by (simp add: py_split_FROM flag_tokens_def)
    next
      assume "resolve_join_alias clause_name = (clause_name, [])"
      then show ?thesis by simp
    qed
  qed
  have a: "resolve_clause clause_name = Inr (SELECT, g, []) \<and>
            (flag (clauses q SELECT) = None \<longrightarrow>
               flag (clauses (snd (add q clause_name args)) SELECT) = Some g)"
    if t: "flag_tokens (py_split ?n) = Some g"
  proof -
    from t have g: "g \<noteq> []"
      by (auto simp: flag_tokens_def split: list.splits if_splits)
    from rc t jk [OF t] have r: "resolve_clause clause_name = Inr (SELECT, g, [])" by simp
    with g show ?thesis
      by (simp add: add_by_resolve_clause set_flag_def add_elements_flag)
  qed
  have b: "(\<forall>k. flag (clauses (snd (add q clause_name args)) k) = flag (clauses q k)) \<and>
            (SQLKeyword ?n = None \<longrightarrow> add q clause_name args = (Some (UnsupportedClause ?n), q))"
    if t: "flag_tokens (py_split ?n) = None"
    using rc t
    by (simp add: add_by_resolve_clause add_elements_flag split: option.splits)
  from p a b show ?thesis by blast
qed

theorem flag_parsing_tokens_witness:
  "py_split (fst (resolve_join_alias ''SELECT DISTINCT extra'')) \<noteq> [] \<and>
   flag_tokens (py_split (fst (resolve_join_alias ''SELECT DISTINCT extra''))) = Some ''DISTINCT'' \<and>
   flag (clauses Query SELECT) = None \<and>
   resolve_clause ''SELECT DISTINCT extra'' = Inr (SELECT, ''DISTINCT'', []) \<and>
   flag (clauses (snd (add Query ''SELECT DISTINCT extra'' [])) SELECT) = Some ''DISTINCT'' \<and>
   py_split (fst (resolve_join_alias ''FROM DISTINCT'')) \<noteq> [] \<and>
   flag_tokens (py_split (fst (resolve_join_alias ''FROM DISTINCT''))) = None \<and>
   SQLKeyword (fst (resolve_join_alias ''FROM DISTINCT'')) = None \<and>
   add Query ''FROM DISTINCT'' [Plain (PyStr ''users'')]
     = (Some (UnsupportedClause ''FROM DISTINCT''), Query)"
proof -
  have 1: "py_split (fst (resolve_join_alias ''SELECT DISTINCT extra'')) \<noteq> []" by code_simp
  have 2: "flag_tokens (py_split (fst (resolve_join_alias ''SELECT DISTINCT extra'')))
             = Some ''DISTINCT''" by code_simp
  have 3: "flag (clauses Query SELECT) = None" by code_simp
  have 4: "py_split (fst (resolve_join_alias ''FROM DISTINCT'')) \<noteq> []" by code_simp
  have 5: "flag_tokens (py_split (fst (resolve_join_alias ''FROM DISTINCT''))) = None"
    by code_simp
  have 6: "SQLKeyword (fst (resolve_join_alias ''FROM DISTINCT'')) = None" by code_simp
  have 7: "fst (resolve_join_alias ''FROM DISTINCT'') = ''FROM DISTINCT''" by code_simp
  from flag_parsing_tokens [OF 1, of "''DISTINCT''" Query "[]"] 2 3
  have a: "resolve_clause ''SELECT DISTINCT extra'' = Inr (SELECT, ''DISTINCT'', []) \<and>
           flag (clauses (snd (add Query ''SELECT DISTINCT extra'' [])) SELECT) = Some ''DISTINCT''"
    by blast
  from flag_parsing_tokens [OF 4, of "''x''" Query "[Plain (PyStr ''users'')]"] 5 6
  have "add Query ''FROM DISTINCT'' [Plain (PyStr ''users'')]
     = (Some (UnsupportedClause (fst (resolve_join_alias ''FROM DISTINCT''))), Query)"
    by blast
  then have b: "add Query ''FROM DISTINCT'' [Plain (PyStr ''users'')]
     = (Some (UnsupportedClause ''FROM DISTINCT''), Query)"
    unfolding 7 .
  from 1 2 3 4 5 6 a b show ?thesis by blast
qed

text \<open>
  C2 as stated fails: the clause name \<open>SELECT DISTINCT extra\<close> has three tokens, yet its
  flag is recognised, \<open>add\<close> raises nothing and the \<open>SELECT\<close> store gets the flag
  \<open>DISTINCT\<close>.
\<close>

theorem three_token_clause_name:
  "py_split ''SELECT DISTINCT extra'' = [''SELECT'', ''DISTINCT'', ''extra''] \<and>
   parse_flag ''SELECT DISTINCT extra'' = Inr (''SELECT'', ''DISTINCT'') \<and>
   fst (add Query ''SELECT DISTINCT extra'' [Plain (PyStr ''x'')]) = None \<and>
   flag (clauses (snd (add Query ''SELECT DISTINCT extra'' [Plain (PyStr ''x'')])) SELECT)
     = Some ''DISTINCT''"
  by code_simp

text \<open>
  C3, as amended. The elements of a clause are partitioned into groups keyed by
  join-keyword tag, the untagged group first and the tagged groups in the order in which
  their tags are first seen, each group keeping its elements in insertion order; every
  tagged group has an element. A non-empty clause renders, after its keyword line, the
  untagged group and then the tagged groups in that order. The untagged group always
  contributes a line: with no untagged element it is the empty line.
\<close>

theorem join_groups_rendering:
  "group_elements_by_join es =
     map (\<lambda>k. (k, filter (\<lambda>e. join_keyword e = k) es))
         ([] # first_seen (filter (\<lambda>k. k \<noteq> []) (map join_keyword es))) \<and>
   (\<forall>k \<in> set (first_seen (filter (\<lambda>k. k \<noteq> []) (map join_keyword es))).
      k \<noteq> [] \<and> filter (\<lambda>e. join_keyword e = k) es \<noteq> []) \<and>
   (\<not> is_empty c \<longrightarrow>
      tl (clause_parts kw c) =
        group_parts kw ([], filter (\<lambda>e. join_keyword e = []) (elements c)) @
        concat (map (\<lambda>k. group_parts kw (k, filter (\<lambda>e. join_keyword e = k) (elements c)))
                    (first_seen (filter (\<lambda>k. k \<noteq> []) (map join_keyword (elements c)))))) \<and>
   group_parts kw ([], []) = [[]]"
  using group_elements_by_join_explicit [of es] tagged_groups_nonempty [of es]
    clause_parts_tl [of c kw] group_parts_empty_default [of kw]
  by blast

theorem join_groups_rendering_witness:
  "\<not> is_empty (clauses (after_calls [(''LEFT JOIN'', [Plain (PyStr ''posts p'')]),
                                     (''FROM'', [Plain (PyStr ''users u'')])]) FROM) \<and>
   clause_parts FROM (clauses (after_calls [(''LEFT JOIN'', [Plain (PyStr ''posts p'')]),
                                           (''FROM'', [Plain (PyStr ''users u'')])]) FROM)
     = [''FROM'', ''    users u'', ''LEFT JOIN'', ''    posts p'']"
proof -
  let ?c = "clauses (after_calls [(''LEFT JOIN'', [Plain (PyStr ''posts p'')]),
                                  (''FROM'', [Plain (PyStr ''users u'')])]) FROM"
  let ?es = "[\<lparr>value_str = ''posts p'', alias_str = [], join_keyword = ''LEFT JOIN'',
               is_subquery = False\<rparr>,
              \<lparr>value_str = ''users u'', alias_str = [], join_keyword = [],
               is_subquery = False\<rparr>]"
  have e: "elements ?c = ?es"
    by code_simp
  have n: "\<not> is_empty ?c" by code_simp
  have h: "clause_parts FROM ?c = ''FROM'' # tl (clause_parts FROM ?c)" by code_simp
  have t: "group_parts FROM ([], filter (\<lambda>e. join_keyword e = []) ?es) @
        concat (map (\<lambda>k. group_parts FROM (k, filter (\<lambda>e. join_keyword e = k) ?es))
                    (first_seen (filter (\<lambda>k. k \<noteq> []) (map join_keyword ?es))))
        = [''    users u'', ''LEFT JOIN'', ''    posts p'']"
    by code_simp
  from join_groups_rendering [of "elements ?c" ?c FROM] n
  have "tl (clause_parts FROM ?c) =
        group_parts FROM ([], filter (\<lambda>e. join_keyword e = []) (elements ?c)) @
        concat (map (\<lambda>k. group_parts FROM (k, filter (\<lambda>e. join_keyword e = k) (elements ?c)))
                    (first_seen (filter (\<lambda>k. k \<noteq> []) (map join_keyword (elements ?c)))))"
    by blast
  then have "tl (clause_parts FROM ?c) = [''    users u'', ''LEFT JOIN'', ''    posts p'']"
    unfolding e t .
  with h n show ?thesis
    by (simp only: simp_thms)
qed

text \<open>
  C3 as stated fails: when every element of the clause is join-tagged, the empty
  untagged group still contributes a line. \<open>Query().add("LEFT JOIN", "posts p")\<close> renders
  an empty line between \<open>FROM\<close> and \<open>LEFT JOIN\<close>.
\<close>

theorem join_only_from_clause:
  "sql_parts (snd (add Query ''LEFT JOIN'' [Plain (PyStr ''posts p'')]))
     = [''FROM'', [], ''LEFT JOIN'', ''    posts p''] \<and>
   build (snd (add Query ''LEFT JOIN'' [Plain (PyStr ''posts p'')]))
     = ''FROM\<newline>\<newline>LEFT JOIN\<newline>    posts p''"
  by code_simp







text \<open>
  C6. In a query built by \<open>add\<close> calls on a new builder, a clause store that holds a flag
  rejects every further flag, the same or another, with \<open>FlagConflict\<close>, and the builder
  stays as it was; no later \<open>add\<close> call changes the flag the store holds. \<open>add("SELECT DISTINCT", "x")\<close> followed by \<open>add("SELECT ALL", "y")\<close> or
  by \<open>add("SELECT DISTINCT", "y")\<close> raises \<open>FlagConflict\<close>, and the flag is still
  \<open>DISTINCT\<close>.
\<close>

theorem flag_conflict:
  "(flag (clauses (after_calls calls) k) = Some f \<and>
    resolve_clause clause_name = Inr (k, g, jk) \<and> g \<noteq> [] \<longrightarrow>
      add (after_calls calls) clause_name args
        = (Some (FlagConflict f g), after_calls calls)) \<and>
   (flag (clauses (after_calls calls) k) = Some f \<longrightarrow>
      flag (clauses (after_calls (calls @ later)) k) = Some f) \<and>
   fst (add Query ''SELECT DISTINCT'' [Plain (PyStr ''x'')]) = None \<and>
   fst (add (snd (add Query ''SELECT DISTINCT'' [Plain (PyStr ''x'')])) ''SELECT ALL''
          [Plain (PyStr ''y'')]) = Some (FlagConflict ''DISTINCT'' ''ALL'') \<and>
   fst (add (snd (add Query ''SELECT DISTINCT'' [Plain (PyStr ''x'')])) ''SELECT DISTINCT''
          [Plain (PyStr ''y'')]) = Some (FlagConflict ''DISTINCT'' ''DISTINCT'') \<and>
   flag (clauses (snd (add (snd (add Query ''SELECT DISTINCT'' [Plain (PyStr ''x'')]))
                         ''SELECT ALL'' [Plain (PyStr ''y'')])) SELECT) = Some ''DISTINCT''"
proof -
  have general: "add (after_calls calls) clause_name args
                   = (Some (FlagConflict f g), after_calls calls)"
    if f: "flag (clauses (after_calls calls) k) = Some f"
      and r: "resolve_clause clause_name = Inr (k, g, jk)" and g: "g \<noteq> []"
  proof -
    from f after_calls_flags_set [of calls k] have "f \<noteq> []" by auto
    with f have "set_flag (clauses (after_calls calls) k) g = Inl (FlagConflict f g)"
      by (simp add: set_flag_def)
    with r g show ?thesis by (simp add: add_by_resolve_clause)
  qed
  have 1: "fst (add Query ''SELECT DISTINCT'' [Plain (PyStr ''x'')]) = None"
    by code_simp
  have 2: "fst (add (snd (add Query ''SELECT DISTINCT'' [Plain (PyStr ''x'')])) ''SELECT ALL''
          [Plain (PyStr ''y'')]) = Some (FlagConflict ''DISTINCT'' ''ALL'')"
    by code_simp
  have 3: "fst (add (snd (add Query ''SELECT DISTINCT'' [Plain (PyStr ''x'')])) ''SELECT DISTINCT''
          [Plain (PyStr ''y'')]) = Some (FlagConflict ''DISTINCT'' ''DISTINCT'')"
    by code_simp
  have 4: "flag (clauses (snd (add (snd (add Query ''SELECT DISTINCT'' [Plain (PyStr ''x'')]))
                         ''SELECT ALL'' [Plain (PyStr ''y'')])) SELECT) = Some ''DISTINCT''"
    by code_simp
  from general after_calls_keep_flag [of calls k f later] 1 2 3 4 show ?thesis by blast
qed

theorem flag_conflict_witness:
  "flag (clauses (after_calls [(''SELECT DISTINCT'', [Plain (PyStr ''x'')])]) SELECT)
     = Some ''DISTINCT'' \<and>
   resolve_clause ''SELECT ALL'' = Inr (SELECT, ''ALL'', []) \<and>
   add (after_calls [(''SELECT DISTINCT'', [Plain (PyStr ''x'')])]) ''SELECT ALL''
       [Plain (PyStr ''y'')]
     = (Some (FlagConflict ''DISTINCT'' ''ALL''),
        after_calls [(''SELECT DISTINCT'', [Plain (PyStr ''x'')])])"
proof -
  have f: "flag (clauses (after_calls [(''SELECT DISTINCT'', [Plain (PyStr ''x'')])]) SELECT)
             = Some ''DISTINCT''"
    by code_simp
  have r: "resolve_clause ''SELECT ALL'' = Inr (SELECT, ''ALL'', [])"
    by code_simp
  from flag_conflict [of "[(''SELECT DISTINCT'', [Plain (PyStr ''x'')])]" SELECT "''DISTINCT''"
      "''SELECT ALL''" "''ALL''" "[]" "[Plain (PyStr ''y'')]"] f r
  show ?thesis by simp
qed



text \<open>
  C8. On a new builder, \<open>Query().SELECT("*").FROM("users")\<close> raises nothing and \<open>build()\<close>
  then returns exactly \<open>SELECT\<close>, four spaces and \<open>*\<close>, \<open>FROM\<close>, four spaces and \<open>users\<close>,
  on four lines joined by single newlines.
\<close>

theorem select_from_users_build:
  "fst (getattr_call Query ''SELECT'' [Plain (PyStr ''*'')]) = None \<and>
   fst (getattr_call (snd (getattr_call Query ''SELECT'' [Plain (PyStr ''*'')])) ''FROM''
          [Plain (PyStr ''users'')]) = None \<and>
   build (snd (getattr_call (snd (getattr_call Query ''SELECT'' [Plain (PyStr ''*'')])) ''FROM''
                 [Plain (PyStr ''users'')]))
     = ''SELECT\<newline>    *\<newline>FROM\<newline>    users''"
  by code_simp

text \<open>
  C9. A clause store without elements renders like a new store, whatever its flag: the
  keyword and the flag are left out of the output. \<open>Query().add("SELECT DISTINCT")\<close>
  raises nothing and records the flag \<open>DISTINCT\<close>, and \<open>build()\<close> then returns the empty
  string.
\<close>

theorem flagged_empty_clause_omitted:
  "(elements c = [] \<longrightarrow>
      build (q\<lparr>clauses := (clauses q)(k := c)\<rparr>)
        = build (q\<lparr>clauses := (clauses q)(k := ClauseCollection)\<rparr>)) \<and>
   fst (add Query ''SELECT DISTINCT'' []) = None \<and>
   flag (clauses (snd (add Query ''SELECT DISTINCT'' [])) SELECT) = Some ''DISTINCT'' \<and>
   build (snd (add Query ''SELECT DISTINCT'' [])) = []"
proof -
  have general: "build (q\<lparr>clauses := (clauses q)(k := c)\<rparr>)
                   = build (q\<lparr>clauses := (clauses q)(k := ClauseCollection)\<rparr>)"
    if "elements c = []"
  proof -
    have "clause_parts k' (if k' = k then c else clauses q k')
            = clause_parts k' (if k' = k then ClauseCollection else clauses q k')" for k'
      using that by (simp add: clause_parts_def is_empty_def ClauseCollection_def)
    then show ?thesis by (simp add: build_def sql_parts_def)
  qed
  have 1: "fst (add Query ''SELECT DISTINCT'' []) = None" by code_simp
  have 2: "flag (clauses (snd (add Query ''SELECT DISTINCT'' [])) SELECT) = Some ''DISTINCT''"
    by code_simp
  have 3: "build (snd (add Query ''SELECT DISTINCT'' [])) = []" by code_simp
  from general 1 2 3 show ?thesis by blast
qed

theorem flagged_empty_clause_omitted_witness:
  "elements \<lparr>elements = [], flag = Some ''DISTINCT''\<rparr> = [] \<and>
   build (Query\<lparr>clauses := (clauses Query)(SELECT := \<lparr>elements = [], flag = Some ''DISTINCT''\<rparr>)\<rparr>)
     = build Query \<and>
   build Query = []"
proof -
  have "build Query = []" by code_simp
  moreover have "Query\<lparr>clauses := (clauses Query)(SELECT := ClauseCollection)\<rparr> = Query"
    by (intro query_eqI) (simp add: Query_def)
  ultimately show ?thesis
    using flagged_empty_clause_omitted [of "\<lparr>elements = [], flag = Some ''DISTINCT''\<rparr>" Query SELECT]
    by simp
qed

text \<open>
  C10. An \<open>add\<close> call that fails with \<open>UnsupportedClause\<close> leaves the builder as it was:
  no flag is set and no element is appended in any clause store.
\<close>

theorem unsupported_clause_unchanged:
  "fst (add q clause_name args) = Some (UnsupportedClause s) \<Longrightarrow>
   snd (add q clause_name args) = q"
  by (auto simp: add_by_resolve_clause split: sum.splits prod.splits if_splits
           dest: add_elements_error set_flag_fails)

theorem unsupported_clause_unchanged_witness:
  "fst (add Query ''MERGE'' [Plain (PyStr ''INTO target'')]) = Some (UnsupportedClause ''MERGE'') \<and>
   snd (add Query ''MERGE'' [Plain (PyStr ''INTO target'')]) = Query"
proof -
  have h: "fst (add Query ''MERGE'' [Plain (PyStr ''INTO target'')])
             = Some (UnsupportedClause ''MERGE'')"
    by code_simp
  from unsupported_clause_unchanged [OF h] h show ?thesis by simp
qed

end
